theory Spec2Isabelle
  imports Complex_Main
begin

section \<open>Errors raised by the scheduler and its collaborators\<close>

text \<open>
  Every exception of the Python source is a value of this type. \<open>StoreError\<close> is any
  exception raised by a Task/Job-store call, \<open>ServiceError\<close> any exception raised by a
  call to the object-graph service, \<open>TypeError\<close> and \<open>OverflowError\<close> Python's own.
\<close>

datatype error =
    NotAllowedError
  | QueueFullError
  | InvalidPrioritizedItemError
  | QueueEmptyError
  | StoreError
  | ServiceError
  | TypeError
  | OverflowError

section \<open>rankers/boefje.py: BoefjeRanker\<close>

text \<open>
  A \<open>datetime\<close> is its number of microseconds since the epoch, a \<open>timedelta\<close> a number
  of microseconds. Python keeps a timedelta normalised as days, seconds and microseconds
  with \<open>0 \<le> seconds < 86400\<close> and \<open>0 \<le> microseconds < 1000000\<close>; the attribute
  \<open>.seconds\<close> reads the middle component.
\<close>

type_synonym datetime = int
type_synonym timedelta = int

definition timedelta_of_seconds :: "int \<Rightarrow> timedelta" where
  "timedelta_of_seconds s = s * 1000000"

text \<open>
  A timedelta holds between \<open>-999999999\<close> days and \<open>999999999\<close> days, 23 hours,
  59 minutes, 59.999999 seconds; building one outside this range raises
  \<open>OverflowError\<close>.
\<close>

definition td_in_range :: "timedelta \<Rightarrow> bool" where
  "td_in_range d = (- 999999999 \<le> d div 86400000000 \<and> d div 86400000000 \<le> 999999999)"

definition td_checked :: "timedelta \<Rightarrow> error + timedelta" where
  "td_checked d = (if td_in_range d then Inr d else Inl OverflowError)"

definition td_seconds :: "timedelta \<Rightarrow> int" where
  "td_seconds d = (d div 1000000) mod 86400"

definition total_seconds :: "timedelta \<Rightarrow> int" where
  "total_seconds d = d div 1000000"

text \<open>
  A prior execution of a task, as \<open>get_tasks_by_hash\<close> returns it. \<open>probes_ok\<close> says
  whether the body of the loop over the prior tasks (the duration and the two
  object-graph queries, whose results the score does not use) returns normally for it.
\<close>

record prior_task =
  pt_modified_at :: datetime
  probes_ok :: bool

definition MAX_PRIORITY :: int where
  "MAX_PRIORITY = 1000"

definition MAX_DAYS :: int where
  "MAX_DAYS = 7"

text \<open>Python's \<open>int(x)\<close> of a float truncates towards zero.\<close>

definition py_int :: "real \<Rightarrow> int" where
  "py_int x = (if 0 \<le> x then \<lfloor>x\<rfloor> else \<lceil>x\<rceil>)"

fun probe_all :: "prior_task list \<Rightarrow> error + unit" where
  "probe_all [] = Inr ()"
| "probe_all (t # ts) = (if probes_ok t then probe_all ts else Inl ServiceError)"

text \<open>
  \<open>rank\<close>: \<open>now\<close> is the reading of the clock, \<open>pq_populate_grace_period\<close> the configured
  grace period in seconds, \<open>prior_tasks\<close> what \<open>get_tasks_by_hash\<close> returned.
  Each timedelta is checked for its range where the source builds it: the grace period
  (line 28, before the history is looked at) and the two differences of line 37.
  The last line of the source divides floats; the model computes it exactly.
\<close>

definition rank :: "datetime \<Rightarrow> int \<Rightarrow> prior_task list option \<Rightarrow> error + int" where
  "rank now pq_populate_grace_period prior_tasks =
     (let max_priority = MAX_PRIORITY;
          max_days_in_seconds = MAX_DAYS * (60 * 60 * 24)
      in case td_checked (timedelta_of_seconds pq_populate_grace_period) of
           Inl e \<Rightarrow> Inl e
         | Inr grace_period \<Rightarrow>
      (case prior_tasks of
           None \<Rightarrow> Inr 2
         | Some [] \<Rightarrow> Inr 2
         | Some (last_task # rest) \<Rightarrow>
      (case td_checked (now - pt_modified_at last_task) of
           Inl e \<Rightarrow> Inl e
         | Inr since_last_run \<Rightarrow>
      (case td_checked (since_last_run - grace_period) of
           Inl e \<Rightarrow> Inl e
         | Inr since_grace_period \<Rightarrow>
             (let time_since_grace_period = td_seconds since_grace_period
              in if time_since_grace_period < 0 then Inr (- 1)
                 else if time_since_grace_period \<ge> max_days_in_seconds then Inr 3
                 else case probe_all (last_task # rest) of
                        Inl e \<Rightarrow> Inl e
                      | Inr _ \<Rightarrow>
                          Inr (py_int (3 + real_of_int (max_priority - 3) *
                                 (1 - real_of_int time_since_grace_period /
                                      real_of_int max_days_in_seconds))))))))"

section \<open>The data model (scheduler.models)\<close>

datatype TaskStatus = PENDING | QUEUED | DISPATCHED | RUNNING | COMPLETED | FAILED

text \<open>\<open>data\<close> is the payload of the item; the scheduler only passes it on.\<close>

record PrioritizedItem =
  p_id :: string
  p_hash :: "string option"
  priority :: int
  data :: string

record Task =
  t_id :: string
  t_scheduler_id :: string
  t_type :: string
  t_p_item :: PrioritizedItem
  status :: TaskStatus
  job_id :: "string option"
  t_created_at :: datetime
  t_modified_at :: datetime

record Job =
  j_id :: string
  j_scheduler_id :: string
  j_hash :: string
  enabled :: bool
  j_p_item :: PrioritizedItem
  j_created_at :: datetime
  j_modified_at :: datetime

section \<open>The world the scheduler runs in\<close>

datatype store_call =
    GetTaskById string
  | CreateTask Task
  | UpdateTask Task
  | GetJobByHash string
  | CreateJob Job
  | UpdateJob Job

datatype log_level = DEBUG | INFO | WARNING | ERROR

text \<open>
  The state outside the scheduler object: the rows of the Task and Job tables, the
  trace of the store calls made so far, which of the store calls fail (\<open>raises w n\<close>:
  the call number \<open>n\<close> raises; \<open>declines w n\<close>: if the call number \<open>n\<close> is
  \<open>create_task\<close>, it returns \<open>None\<close>), the entries of the priority queue and its
  \<open>maxsize\<close>, the log, the successive readings of the clock and the identifiers that
  \<open>uuid4\<close> hands out.
\<close>

record world =
  tasks :: "Task list"
  jobs :: "Job list"
  calls :: "store_call list"
  raises :: "nat \<Rightarrow> bool"
  declines :: "nat \<Rightarrow> bool"
  queue :: "PrioritizedItem list"
  maxsize :: int
  logs :: "(log_level \<times> string) list"
  clock :: "nat \<Rightarrow> datetime"
  ticks :: nat
  uuid4 :: "nat \<Rightarrow> string"
  uuids :: nat

definition logger :: "log_level \<Rightarrow> string \<Rightarrow> world \<Rightarrow> world" where
  "logger lvl msg w = w\<lparr>logs := logs w @ [(lvl, msg)]\<rparr>"

text \<open>\<open>datetime.now(timezone.utc)\<close>: each call takes the next reading of the clock.\<close>

definition now :: "world \<Rightarrow> datetime \<times> world" where
  "now w = (clock w (ticks w), w\<lparr>ticks := Suc (ticks w)\<rparr>)"

definition new_uuid :: "world \<Rightarrow> string \<times> world" where
  "new_uuid w = (uuid4 w (uuids w), w\<lparr>uuids := Suc (uuids w)\<rparr>)"

subsection \<open>The Task/Job store\<close>

text \<open>
  Modelled from the spec: the Task/Job store (\<open>ctx.task_store\<close>, \<open>ctx.job_store\<close>),
  whose code is not part of the sources at hand. The spec gives its CRUD contract:
  \<open>get_task_by_id\<close>, \<open>create_task\<close>, \<open>update_task\<close>, \<open>get_job_by_hash\<close>,
  \<open>create_job\<close>, \<open>update_job\<close>, any of which may fail with a store-specific error.
  Here a table is the list of its rows, a lookup returns the first row that matches,
  a create appends a row, an update overwrites the rows that carry the record's id, and
  a call that fails changes no row.
\<close>

definition record_call :: "store_call \<Rightarrow> world \<Rightarrow> world" where
  "record_call c w = w\<lparr>calls := calls w @ [c]\<rparr>"

definition get_task_by_id :: "string \<Rightarrow> world \<Rightarrow> (error + Task option) \<times> world" where
  "get_task_by_id tid w =
     (if raises w (length (calls w)) then (Inl StoreError, record_call (GetTaskById tid) w)
      else (Inr (find (\<lambda>r. t_id r = tid) (tasks w)), record_call (GetTaskById tid) w))"

definition create_task :: "Task \<Rightarrow> world \<Rightarrow> (error + Task option) \<times> world" where
  "create_task t w =
     (if raises w (length (calls w)) then (Inl StoreError, record_call (CreateTask t) w)
      else if declines w (length (calls w)) then (Inr None, record_call (CreateTask t) w)
      else (Inr (Some t), record_call (CreateTask t) (w\<lparr>tasks := tasks w @ [t]\<rparr>)))"

definition update_task :: "Task \<Rightarrow> world \<Rightarrow> (error + unit) \<times> world" where
  "update_task t w =
     (if raises w (length (calls w)) then (Inl StoreError, record_call (UpdateTask t) w)
      else (Inr (), record_call (UpdateTask t)
              (w\<lparr>tasks := map (\<lambda>r. if t_id r = t_id t then t else r) (tasks w)\<rparr>)))"

definition get_job_by_hash :: "string \<Rightarrow> world \<Rightarrow> (error + Job option) \<times> world" where
  "get_job_by_hash h w =
     (if raises w (length (calls w)) then (Inl StoreError, record_call (GetJobByHash h) w)
      else (Inr (find (\<lambda>r. j_hash r = h) (jobs w)), record_call (GetJobByHash h) w))"

definition create_job :: "Job \<Rightarrow> world \<Rightarrow> (error + Job) \<times> world" where
  "create_job j w =
     (if raises w (length (calls w)) then (Inl StoreError, record_call (CreateJob j) w)
      else (Inr j, record_call (CreateJob j) (w\<lparr>jobs := jobs w @ [j]\<rparr>)))"

definition update_job :: "Job \<Rightarrow> world \<Rightarrow> (error + unit) \<times> world" where
  "update_job j w =
     (if raises w (length (calls w)) then (Inl StoreError, record_call (UpdateJob j) w)
      else (Inr (), record_call (UpdateJob j)
              (w\<lparr>jobs := map (\<lambda>r. if j_id r = j_id j then j else r) (jobs w)\<rparr>)))"

section \<open>schedulers/scheduler.py: Scheduler\<close>

text \<open>
  The attributes of a scheduler that the methods below read. The class
  \<open>queues.PriorityQueue\<close> is not part of the sources at hand: \<open>qpush\<close> stands for its
  \<open>push\<close>, which either raises or returns the new entries of the queue, and
  \<open>qsize()\<close> is the number of entries.
\<close>

record scheduler =
  scheduler_id :: string
  item_type :: string
  pq_id :: string
  qpush :: "PrioritizedItem \<Rightarrow> PrioritizedItem list \<Rightarrow> error + PrioritizedItem list"

definition qsize :: "world \<Rightarrow> int" where
  "qsize w = int (length (queue w))"

text \<open>Lines 140 to 195 of \<open>post_push\<close>: the Job of the new Task.\<close>

definition post_push_job ::
  "scheduler \<Rightarrow> PrioritizedItem \<Rightarrow> string \<Rightarrow> Task \<Rightarrow> world \<Rightarrow> (error + unit) \<times> world" where
  "post_push_job s p_item h task_db w =
     (case get_job_by_hash h w of
        (Inl e, w1) \<Rightarrow> (Inl e, w1)
      | (Inr found, w1) \<Rightarrow>
          (case (case found of
                   Some job_db \<Rightarrow> (Inr job_db, w1)
                 | None \<Rightarrow>
                     (let (created, w2) = now w1;
                          (modified, w3) = now w2;
                          (jid, w4) = new_uuid w3
                      in create_job \<lparr>j_id = jid, j_scheduler_id = scheduler_id s,
                           j_hash = h, enabled = True, j_p_item = p_item,
                           j_created_at = created, j_modified_at = modified\<rparr> w4)) of
             (Inl e, w5) \<Rightarrow> (Inr (), logger WARNING ''Job %s could not be created'' w5)
           | (Inr job_db, w5) \<Rightarrow>
               (let job_db' = (if \<not> enabled job_db then job_db\<lparr>enabled := True\<rparr> else job_db)
                in case update_job job_db' w5 of
                     (Inl e, w6) \<Rightarrow> (Inr (), logger WARNING ''Job %s could not be updated'' w6)
                   | (Inr _, w6) \<Rightarrow>
                       (case update_task (task_db\<lparr>job_id := Some (j_id job_db')\<rparr>) w6 of
                          (Inl e, w7) \<Rightarrow>
                            (Inr (), logger WARNING ''Task %s could not be updated'' w7)
                        | (Inr _, w7) \<Rightarrow> (Inr (), w7)))))"

definition post_push :: "scheduler \<Rightarrow> PrioritizedItem \<Rightarrow> world \<Rightarrow> (error + unit) \<times> world" where
  "post_push s p_item w =
     (let (created, w1) = now w;
          (modified, w2) = now w1;
          task = \<lparr>t_id = p_id p_item, t_scheduler_id = scheduler_id s, t_type = item_type s,
                  t_p_item = p_item, status = QUEUED, job_id = None,
                  t_created_at = created, t_modified_at = modified\<rparr>
      in case p_hash p_item of
           None \<Rightarrow> (Inr (), logger WARNING ''Task %s has no hash, not creating job'' w2)
         | Some h \<Rightarrow>
             (case get_task_by_id (p_id p_item) w2 of
                (Inl e, w3) \<Rightarrow> (Inl e, w3)
              | (Inr (Some _), w3) \<Rightarrow> update_task task w3
              | (Inr None, w3) \<Rightarrow>
                  (case create_task task w3 of
                     (Inl e, w4) \<Rightarrow> (Inl e, w4)
                   | (Inr None, w4) \<Rightarrow>
                       (Inr (), logger WARNING
                          ''Task %s could not be created, not creating job'' w4)
                   | (Inr (Some task_db), w4) \<Rightarrow> post_push_job s p_item h task_db w4)))"

definition post_pop :: "scheduler \<Rightarrow> PrioritizedItem \<Rightarrow> world \<Rightarrow> (error + unit) \<times> world" where
  "post_pop s p_item w =
     (case get_task_by_id (p_id p_item) w of
        (Inl e, w1) \<Rightarrow> (Inl e, w1)
      | (Inr None, w1) \<Rightarrow>
          (Inr (), logger WARNING
             ''Task %s not found in datastore, not updating status'' w1)
      | (Inr (Some task), w1) \<Rightarrow> update_task (task\<lparr>status := DISPATCHED\<rparr>) w1)"

definition push_item_to_queue ::
  "scheduler \<Rightarrow> PrioritizedItem \<Rightarrow> world \<Rightarrow> (error + unit) \<times> world" where
  "push_item_to_queue s p_item w =
     (case qpush s p_item (queue w) of
        Inl e \<Rightarrow>
          (if e = NotAllowedError
             then (Inl e, logger WARNING ''Not allowed to push to queue %s'' w)
           else if e = QueueFullError
             then (Inl e, logger WARNING ''Queue %s is full, not populating new tasks'' w)
           else if e = InvalidPrioritizedItemError
             then (Inl e, logger WARNING ''Invalid prioritized item %s'' w)
           else (Inl e, w))
      | Inr q \<Rightarrow>
          post_push s p_item (logger DEBUG ''Pushed item (%s) to queue %s with priority %s''
            (w\<lparr>queue := q\<rparr>)))"

text \<open>
  The loop of \<open>push_items_to_queue\<close> over the items; the counter \<open>count\<close> of the
  source is never read and is left out.
\<close>

fun push_items_to_queue ::
  "scheduler \<Rightarrow> PrioritizedItem list \<Rightarrow> world \<Rightarrow> (error + unit) \<times> world" where
  "push_items_to_queue s [] w = (Inr (), w)"
| "push_items_to_queue s (p_item # p_items) w =
     (case push_item_to_queue s p_item w of
        (Inl e, w1) \<Rightarrow>
          (if e = NotAllowedError \<or> e = QueueFullError \<or> e = InvalidPrioritizedItemError
           then push_items_to_queue s p_items
                  (logger DEBUG ''Unable to push item to queue %s'' w1)
           else (Inl e, logger ERROR ''Unable to push item to queue %s'' w1))
      | (Inr _, w1) \<Rightarrow> push_items_to_queue s p_items w1)"

definition is_space_on_queue :: "world \<Rightarrow> bool" where
  "is_space_on_queue w =
     (if (maxsize w - qsize w) \<le> 0 \<and> maxsize w \<noteq> 0 then False else True)"

text \<open>
  The \<open>while\<close> loop of \<open>push_item_to_queue_with_timeout\<close>. \<open>sleep timeout\<close> is what
  the other threads do to the world while this one sleeps. The loop need not end
  (\<open>max_tries = -1\<close> and a queue that stays full), so its result is an option:
  \<open>None\<close> when it runs forever, else the number of tries and the world it stops in.
\<close>

partial_function (option) wait_for_space ::
  "(int \<Rightarrow> world \<Rightarrow> world) \<Rightarrow> int \<Rightarrow> int \<Rightarrow> int \<Rightarrow> world \<Rightarrow> (int \<times> world) option" where
  "wait_for_space sleep timeout max_tries tries w =
     (if \<not> is_space_on_queue w \<and> (tries < max_tries \<or> max_tries = - 1)
      then wait_for_space sleep timeout max_tries (tries + 1)
             (sleep timeout (logger DEBUG ''Queue %s is full, waiting for space'' w))
      else Some (tries, w))"

definition push_item_to_queue_with_timeout ::
  "scheduler \<Rightarrow> (int \<Rightarrow> world \<Rightarrow> world) \<Rightarrow> PrioritizedItem \<Rightarrow> int \<Rightarrow> int \<Rightarrow> world
     \<Rightarrow> ((error + unit) \<times> world) option" where
  "push_item_to_queue_with_timeout s sleep p_item max_tries timeout w =
     (case wait_for_space sleep timeout max_tries 0 w of
        None \<Rightarrow> None
      | Some (tries, w1) \<Rightarrow>
          (if tries \<ge> max_tries \<and> max_tries \<noteq> - 1 then Some (Inl QueueFullError, w1)
           else Some (push_item_to_queue s p_item w1)))"

section \<open>connectors/services/octopoes.py: Octopoes\<close>

text \<open>
  The parameters of a request to \<open>GET /{org}/objects\<close> and the JSON body of the reply:
  \<open>count\<close> is what \<open>.get("count")\<close> finds (\<open>None\<close> when the key is absent or
  null); for \<open>items\<close> the body has no such key, or the key with \<open>null\<close>, or the key
  with a list. The objects of the list are taken as the \<open>OOI\<close> they convert to.
\<close>

record request =
  url :: string
  types :: "string list"
  scan_level :: "int set"
  offset :: int
  limit :: int

datatype 'o json_items = Absent | Null | Items "'o list"

record 'o response =
  count :: "int option"
  items :: "'o json_items"

text \<open>
  \<open>self.get\<close>: the service answers the request, or the call raises. The answer may
  depend on how many requests came before; the requests sent so far are kept as a trace.
\<close>

type_synonym 'o service = "nat \<Rightarrow> request \<Rightarrow> error + 'o response"

definition http_get ::
  "'o service \<Rightarrow> request \<Rightarrow> request list \<Rightarrow> (error + 'o response) \<times> request list" where
  "http_get srv params sent = (srv (length sent) params, sent @ [params])"

text \<open>Python's \<open>range(0, stop, step)\<close> for a positive \<open>step\<close>.\<close>

definition py_range :: "int \<Rightarrow> int \<Rightarrow> int list" where
  "py_range stop step = map (\<lambda>k. int k * step) [0..<nat ((stop + step - 1) div step)]"

text \<open>
  The loop over the pages: \<open>oois\<close> is the list collected so far. \<open>.get("items", [])\<close>
  gives the empty list for an absent key and \<open>None\<close> for a null, over which the
  comprehension raises \<open>TypeError\<close>.
\<close>

fun fetch_pages ::
  "'o service \<Rightarrow> request \<Rightarrow> int list \<Rightarrow> 'o list \<Rightarrow> request list
     \<Rightarrow> (error + 'o list) \<times> request list" where
  "fetch_pages srv params [] oois sent = (Inr oois, sent)"
| "fetch_pages srv params (off # offs) oois sent =
     (case http_get srv (params\<lparr>offset := off\<rparr>) sent of
        (Inl e, sent1) \<Rightarrow> (Inl e, sent1)
      | (Inr resp, sent1) \<Rightarrow>
          (case items resp of
             Null \<Rightarrow> (Inl TypeError, sent1)
           | Absent \<Rightarrow> fetch_pages srv (params\<lparr>offset := off\<rparr>) offs oois sent1
           | Items xs \<Rightarrow>
               fetch_pages srv (params\<lparr>offset := off\<rparr>) offs (oois @ xs) sent1))"

text \<open>
  Modelled from the spec: the decorator \<open>exception_handler\<close> of
  \<open>scheduler.connectors.errors\<close>, which is not part of the sources at hand. By the
  spec a failure of an object-graph call is re-raised to the caller as a single
  normalized error.
\<close>

definition exception_handler :: "(error + 'a) \<times> 's \<Rightarrow> (error + 'a) \<times> 's" where
  "exception_handler r = (case r of (Inl e, s) \<Rightarrow> (Inl ServiceError, s) | (Inr v, s) \<Rightarrow> (Inr v, s))"

definition get_objects_by_object_types ::
  "'o service \<Rightarrow> string \<Rightarrow> string \<Rightarrow> string list \<Rightarrow> int list option \<Rightarrow> request list
     \<Rightarrow> (error + 'o list) \<times> request list" where
  "get_objects_by_object_types srv host organisation_id object_types scan_levels sent =
     exception_handler
       (let scan_levels' = (case scan_levels of None \<Rightarrow> [] | Some l \<Rightarrow> l);
            params = \<lparr>url = host @ ''/'' @ organisation_id @ ''/objects'',
                      types = object_types, scan_level = set scan_levels',
                      offset = 0, limit = 1\<rparr>
        in case http_get srv params sent of
             (Inl e, sent1) \<Rightarrow> (Inl e, sent1)
           | (Inr resp, sent1) \<Rightarrow>
               (case count resp of
                  None \<Rightarrow> (Inl TypeError, sent1)
                | Some c \<Rightarrow>
                    fetch_pages srv (params\<lparr>limit := 1000\<rparr>) (py_range c 1000) [] sent1))"

text \<open>
  Modelled from the spec: the object-graph service behind \<open>GET /{org}/objects\<close>
  (parameters types, scan_level, offset, limit; reply \<open>{count, items}\<close>), whose code
  is not part of the sources at hand. It holds the objects \<open>xs\<close> that match, reports
  their number and returns the page of at most \<open>limit\<close> objects from \<open>offset\<close>.
\<close>

definition serving :: "'o list \<Rightarrow> 'o service" where
  "serving xs n r =
     Inr \<lparr>count = Some (int (length xs)),
          items = Items (take (nat (limit r)) (drop (nat (offset r)) xs))\<rparr>"

section \<open>Notions used in the statements\<close>

text \<open>The number of rows of the Task table that carry the id \<open>tid\<close>.\<close>

definition task_rows :: "string \<Rightarrow> world \<Rightarrow> nat" where
  "task_rows tid w = length (filter (\<lambda>r. t_id r = tid) (tasks w))"

text \<open>
  The Task that \<open>post_push\<close> constructs on entry (lines 106 to 114) when it is called in
  the world \<open>w\<close>: its two timestamps are the next two readings of the clock.
\<close>

definition fresh_task :: "scheduler \<Rightarrow> PrioritizedItem \<Rightarrow> world \<Rightarrow> Task" where
  "fresh_task s p_item w =
     \<lparr>t_id = p_id p_item, t_scheduler_id = scheduler_id s, t_type = item_type s,
      t_p_item = p_item, status = QUEUED, job_id = None,
      t_created_at = clock w (ticks w), t_modified_at = clock w (Suc (ticks w))\<rparr>"

section \<open>Concrete inputs\<close>

definition sched0 :: scheduler where
  "sched0 = \<lparr>scheduler_id = ''boefje-org'', item_type = ''boefje'', pq_id = ''boefje-org'',
              qpush = (\<lambda>p q. Inr (q @ [p]))\<rparr>"

definition item_a :: PrioritizedItem where
  "item_a = \<lparr>p_id = ''a'', p_hash = Some ''h'', priority = 2, data = ''x''\<rparr>"

definition item_nohash :: PrioritizedItem where
  "item_nohash = \<lparr>p_id = ''n'', p_hash = None, priority = 2, data = ''y''\<rparr>"

definition task_a :: Task where
  "task_a = \<lparr>t_id = ''a'', t_scheduler_id = ''boefje-org'', t_type = ''boefje'',
              t_p_item = item_a, status = RUNNING, job_id = Some ''j'',
              t_created_at = 10, t_modified_at = 20\<rparr>"

text \<open>An empty store and an unbounded empty queue; no store call fails.\<close>

definition world0 :: world where
  "world0 = \<lparr>tasks = [], jobs = [], calls = [], raises = (\<lambda>n. False),
              declines = (\<lambda>n. False), queue = [], maxsize = 0, logs = [],
              clock = (\<lambda>n. 1000 + int n), ticks = 0, uuid4 = (\<lambda>n. ''job''), uuids = 0\<rparr>"

text \<open>The store holds the Task of \<open>item_a\<close>.\<close>

definition world_a :: world where
  "world_a = world0\<lparr>tasks := [task_a]\<rparr>"

text \<open>The same store, out of order: every call raises.\<close>

definition world_down :: world where
  "world_down = world_a\<lparr>raises := (\<lambda>n. True)\<rparr>"

text \<open>A queue of size one that is full, and a consumer that pops during each sleep.\<close>

definition world_full :: world where
  "world_full = world0\<lparr>queue := [item_nohash], maxsize := 1\<rparr>"

definition consumer :: "int \<Rightarrow> world \<Rightarrow> world" where
  "consumer timeout w = w\<lparr>queue := tl (queue w)\<rparr>"

text \<open>
  A scheduler whose queue refuses an item whose hash is already queued, a second item,
  a world whose queue holds \<open>item_a\<close>, and the same world with the store out of order.
\<close>

definition sched_dedup :: scheduler where
  "sched_dedup =
     sched0\<lparr>qpush := (\<lambda>p q. if p_hash p \<in> set (map p_hash q) then Inl NotAllowedError
                              else Inr (q @ [p]))\<rparr>"

definition item_b :: PrioritizedItem where
  "item_b = \<lparr>p_id = ''b'', p_hash = Some ''g'', priority = 3, data = ''z''\<rparr>"

definition world_queued :: world where
  "world_queued = world_a\<lparr>queue := [item_a]\<rparr>"

definition world_queued_down :: world where
  "world_queued_down = world_queued\<lparr>raises := (\<lambda>n. True)\<rparr>"

text \<open>A store in which every call from the fourth on raises.\<close>

definition world_jobs_down :: world where
  "world_jobs_down = world0\<lparr>raises := (\<lambda>n. 3 \<le> n)\<rparr>"

section \<open>BoefjeRanker.rank\<close>

lemma td_seconds_range: "0 \<le> td_seconds d \<and> td_seconds d < 86400"
  by (simp add: td_seconds_def)

text \<open>
  C1. Inside the grace window \<open>rank\<close> should return \<open>-1\<close>. The code reads \<open>.seconds\<close>
  of the timedelta, the seconds component of its normalised form, which is never
  negative: with the last run 10 seconds ago and a grace period of 60 seconds the
  difference is \<open>-1 day + 86350 s\<close>, and \<open>rank\<close> returns 857 instead of \<open>-1\<close>.
\<close>

theorem rank_in_grace_period:
  "total_seconds (100000000 - pt_modified_at \<lparr>pt_modified_at = 90000000, probes_ok = True\<rparr>) < 60 \<and>
   rank 100000000 60 (Some [\<lparr>pt_modified_at = 90000000, probes_ok = True\<rparr>]) = Inr 857"
  by (simp add: rank_def timedelta_of_seconds_def td_seconds_def total_seconds_def
        td_checked_def td_in_range_def MAX_PRIORITY_def MAX_DAYS_def py_int_def)

text \<open>With a history \<open>rank\<close> never returns \<open>-1\<close>, whatever the clock and the grace period.\<close>

lemma rank_never_not_due: "rank now' g (Some (t # ts)) \<noteq> Inr (- 1)"
proof -
  let ?x = "td_seconds (now' - pt_modified_at t - timedelta_of_seconds g)"
  have r: "0 \<le> ?x" "?x < 86400" using td_seconds_range by simp_all
  have "real_of_int ?x / 604800 \<le> 1" using r by simp
  then have "0 \<le> 3 + 997 * (1 - real_of_int ?x / 604800)" by simp
  then have "py_int (3 + 997 * (1 - real_of_int ?x / 604800)) \<ge> 0"
    by (simp add: py_int_def)
  then show ?thesis using r
    by (auto simp: rank_def Let_def td_checked_def MAX_PRIORITY_def MAX_DAYS_def
          split: sum.splits if_splits)
qed

text \<open>
  C2. Once \<open>MAX_DAYS\<close> days have gone by since the end of the grace period \<open>rank\<close>
  should return 3. The same \<open>.seconds\<close> is below 86400, so the comparison with 604800
  never holds: exactly 8 days after the grace period the seconds component is 0 and
  \<open>rank\<close> returns 1000, the least urgent priority, instead of 3.
\<close>

theorem rank_after_max_days:
  "total_seconds (691300000000 - pt_modified_at \<lparr>pt_modified_at = 40000000, probes_ok = True\<rparr>
      - timedelta_of_seconds 60) \<ge> MAX_DAYS * 86400 \<and>
   rank 691300000000 60 (Some [\<lparr>pt_modified_at = 40000000, probes_ok = True\<rparr>]) = Inr 1000"
  by (simp add: rank_def timedelta_of_seconds_def td_seconds_def total_seconds_def
        td_checked_def td_in_range_def MAX_PRIORITY_def MAX_DAYS_def py_int_def)

section \<open>Scheduler.post_push and Scheduler.post_pop\<close>

text \<open>
  C7. For an item whose hash is null \<open>post_push\<close> logs a warning and returns: it makes
  no call to the store, and the Task and Job tables are as they were.
\<close>

theorem post_push_no_hash:
  assumes "p_hash p_item = None"
  shows "fst (post_push s p_item w) = Inr () \<and>
         tasks (snd (post_push s p_item w)) = tasks w \<and>
         jobs (snd (post_push s p_item w)) = jobs w \<and>
         calls (snd (post_push s p_item w)) = calls w \<and>
         logs (snd (post_push s p_item w)) =
           logs w @ [(WARNING, ''Task %s has no hash, not creating job'')]"
  using assms by (simp add: post_push_def now_def logger_def)

theorem post_push_no_hash_witness:
  "p_hash item_nohash = None \<and>
   fst (post_push sched0 item_nohash world_a) = Inr () \<and>
   tasks (snd (post_push sched0 item_nohash world_a)) = [task_a] \<and>
   jobs (snd (post_push sched0 item_nohash world_a)) = [] \<and>
   calls (snd (post_push sched0 item_nohash world_a)) = []"
proof -
  have h: "p_hash item_nohash = None" by (simp add: item_nohash_def)
  show ?thesis
    using h post_push_no_hash [OF h, of sched0 world_a]
    by (simp add: world_a_def world0_def)
qed

subsection \<open>Facts about the rows of the Task table\<close>

lemmas store_defs = get_task_by_id_def create_task_def update_task_def get_job_by_hash_def
  create_job_def update_job_def record_call_def logger_def now_def new_uuid_def

lemma find_t_id: "find (\<lambda>r. t_id r = tid) rows = Some t \<Longrightarrow> t_id t = tid"
  by (induction rows) (auto split: if_splits)

lemma find_None_rows:
  "find (\<lambda>r. t_id r = tid) rows = None \<Longrightarrow> filter (\<lambda>r. t_id r = tid) rows = []"
  by (induction rows) (auto split: if_splits)

lemma filter_overwrite:
  "t_id t = k \<Longrightarrow>
   length (filter ((\<lambda>r. t_id r = tid) \<circ> (\<lambda>r. if t_id r = k then t else r)) rows) =
   length (filter (\<lambda>r. t_id r = tid) rows)"
  by (induction rows) auto

lemma find_overwrite:
  "find (\<lambda>r. t_id r = k) rows = Some t0 \<Longrightarrow> t_id t = k \<Longrightarrow>
   find (\<lambda>r. t_id r = k) (map (\<lambda>r. if t_id r = k then t else r) rows) = Some t"
  by (induction rows) (auto split: if_splits)

lemma ids_overwrite:
  "t_id t = k \<Longrightarrow> map t_id (map (\<lambda>r. if t_id r = k then t else r) rows) = map t_id rows"
  by (induction rows) auto

lemma post_push_job_rows:
  "task_rows tid (snd (post_push_job s p_item h task_db w)) = task_rows tid w"
  by (auto simp: post_push_job_def task_rows_def store_defs Let_def filter_overwrite
        split: option.splits)

lemma post_push_rows:
  "task_rows (p_id p_item) (snd (post_push s p_item w)) \<le> max 1 (task_rows (p_id p_item) w)"
  by (auto simp: post_push_def task_rows_def Let_def get_task_by_id_def create_task_def
        update_task_def record_call_def logger_def now_def filter_overwrite
        post_push_job_rows [unfolded task_rows_def]
        split: option.splits dest: find_None_rows)

text \<open>
  With a hash, a Task of the item's id in the store and a lookup that answers,
  \<open>post_push\<close> is the lookup followed by one \<open>update_task\<close> of the fresh Task.
\<close>

lemma post_push_existing:
  assumes "p_hash p_item = Some h"
    and "find (\<lambda>r. t_id r = p_id p_item) (tasks w) = Some task_db"
    and "\<not> raises w (length (calls w))"
  shows "post_push s p_item w =
           update_task (fresh_task s p_item w)
             (record_call (GetTaskById (p_id p_item)) (w\<lparr>ticks := Suc (Suc (ticks w))\<rparr>))"
  using assms
  by (simp add: post_push_def fresh_task_def Let_def get_task_by_id_def now_def record_call_def)

lemma fresh_task_id: "t_id (fresh_task s p_item w) = p_id p_item"
  by (simp add: fresh_task_def)

subsection \<open>The claims\<close>

text \<open>
  C8. \<open>post_pop\<close> looks the Task up by the id of the item. When the lookup answers
  that there is none, \<open>post_pop\<close> logs a warning and returns normally; its only store
  call is the lookup, and both tables are unchanged. When the lookup answers with a Task
  and the update goes through, \<open>post_pop\<close> returns normally and the row of that id is
  the Task with status \<open>DISPATCHED\<close>.
\<close>

theorem post_pop_lookup:
  assumes "\<not> raises w (length (calls w))"
  shows "(find (\<lambda>r. t_id r = p_id p_item) (tasks w) = None \<longrightarrow>
            fst (post_pop s p_item w) = Inr () \<and>
            tasks (snd (post_pop s p_item w)) = tasks w \<and>
            jobs (snd (post_pop s p_item w)) = jobs w \<and>
            calls (snd (post_pop s p_item w)) = calls w @ [GetTaskById (p_id p_item)] \<and>
            logs (snd (post_pop s p_item w)) =
              logs w @ [(WARNING, ''Task %s not found in datastore, not updating status'')]) \<and>
         (\<forall>task. find (\<lambda>r. t_id r = p_id p_item) (tasks w) = Some task \<and>
                 \<not> raises w (Suc (length (calls w))) \<longrightarrow>
            fst (post_pop s p_item w) = Inr () \<and>
            tasks (snd (post_pop s p_item w)) =
              map (\<lambda>r. if t_id r = p_id p_item then task\<lparr>status := DISPATCHED\<rparr> else r)
                (tasks w) \<and>
            jobs (snd (post_pop s p_item w)) = jobs w \<and>
            calls (snd (post_pop s p_item w)) =
              calls w @ [GetTaskById (p_id p_item), UpdateTask (task\<lparr>status := DISPATCHED\<rparr>)])"
  using assms
  by (auto simp: post_pop_def get_task_by_id_def update_task_def record_call_def logger_def
        dest: find_t_id)

theorem post_pop_lookup_witness:
  "\<not> raises world_a (length (calls world_a)) \<and>
   find (\<lambda>r. t_id r = p_id item_nohash) (tasks world_a) = None \<and>
   fst (post_pop sched0 item_nohash world_a) = Inr () \<and>
   tasks (snd (post_pop sched0 item_nohash world_a)) = [task_a] \<and>
   calls (snd (post_pop sched0 item_nohash world_a)) = [GetTaskById ''n''] \<and>
   find (\<lambda>r. t_id r = p_id item_a) (tasks world_a) = Some task_a \<and>
   \<not> raises world_a (Suc (length (calls world_a))) \<and>
   fst (post_pop sched0 item_a world_a) = Inr () \<and>
   tasks (snd (post_pop sched0 item_a world_a)) = [task_a\<lparr>status := DISPATCHED\<rparr>]"
proof -
  have h: "\<not> raises world_a (length (calls world_a))"
    by (simp add: world_a_def world0_def)
  have n: "find (\<lambda>r. t_id r = p_id item_nohash) (tasks world_a) = None"
    by (simp add: world_a_def world0_def task_a_def item_nohash_def)
  have y: "find (\<lambda>r. t_id r = p_id item_a) (tasks world_a) = Some task_a \<and>
           \<not> raises world_a (Suc (length (calls world_a)))"
    by (simp add: world_a_def world0_def task_a_def item_a_def)
  show ?thesis
    using h n y post_pop_lookup [OF h, of item_nohash sched0]
      post_pop_lookup [OF h, of item_a sched0]
    by (simp add: world_a_def world0_def task_a_def item_a_def item_nohash_def)
qed

text \<open>
  C10. In the existing-Task branch of \<open>post_push\<close> (the item has a hash, the lookup
  answers with a Task of the item's id) the store calls are the lookup and one
  \<open>update_task\<close> of the fresh Task, whose status is \<open>QUEUED\<close> and whose \<open>created_at\<close>
  and \<open>modified_at\<close> are the readings of the clock taken on entry. No Job call is made,
  no Job id is drawn and the Job table is unchanged. When the update goes through, the
  stored Task of that id is the fresh one.
\<close>

theorem post_push_existing_overwrites:
  assumes "p_hash p_item = Some h"
    and "find (\<lambda>r. t_id r = p_id p_item) (tasks w) = Some task_db"
    and "\<not> raises w (length (calls w))"
  shows "calls (snd (post_push s p_item w)) =
           calls w @ [GetTaskById (p_id p_item), UpdateTask (fresh_task s p_item w)] \<and>
         jobs (snd (post_push s p_item w)) = jobs w \<and>
         uuids (snd (post_push s p_item w)) = uuids w \<and>
         status (fresh_task s p_item w) = QUEUED \<and>
         job_id (fresh_task s p_item w) = None \<and>
         t_created_at (fresh_task s p_item w) = clock w (ticks w) \<and>
         t_modified_at (fresh_task s p_item w) = clock w (Suc (ticks w)) \<and>
         (\<not> raises w (Suc (length (calls w))) \<longrightarrow>
            fst (post_push s p_item w) = Inr () \<and>
            tasks (snd (post_push s p_item w)) =
              map (\<lambda>r. if t_id r = p_id p_item then fresh_task s p_item w else r) (tasks w) \<and>
            find (\<lambda>r. t_id r = p_id p_item) (tasks (snd (post_push s p_item w))) =
              Some (fresh_task s p_item w))"
proof -
  have f: "find (\<lambda>r. t_id r = p_id p_item)
             (map (\<lambda>r. if t_id r = p_id p_item then fresh_task s p_item w else r) (tasks w)) =
           Some (fresh_task s p_item w)"
    by (rule find_overwrite [OF assms(2)]) (rule fresh_task_id)
  show ?thesis
    unfolding post_push_existing [OF assms] using assms(3) f fresh_task_id [of s p_item w]
    by (simp add: update_task_def record_call_def) (simp add: fresh_task_def)
qed

theorem post_push_existing_overwrites_witness:
  "p_hash item_a = Some ''h'' \<and>
   find (\<lambda>r. t_id r = p_id item_a) (tasks world_a) = Some task_a \<and>
   \<not> raises world_a (length (calls world_a)) \<and>
   \<not> raises world_a (Suc (length (calls world_a))) \<and>
   jobs (snd (post_push sched0 item_a world_a)) = [] \<and>
   map status (tasks (snd (post_push sched0 item_a world_a))) = [QUEUED] \<and>
   map t_created_at (tasks (snd (post_push sched0 item_a world_a))) = [1000] \<and>
   map t_modified_at (tasks (snd (post_push sched0 item_a world_a))) = [1001] \<and>
   map job_id (tasks (snd (post_push sched0 item_a world_a))) = [None]"
proof -
  have h1: "p_hash item_a = Some ''h''" by (simp add: item_a_def)
  have h2: "find (\<lambda>r. t_id r = p_id item_a) (tasks world_a) = Some task_a"
    by (simp add: world_a_def world0_def task_a_def item_a_def)
  have h3: "\<not> raises world_a (length (calls world_a))" by (simp add: world_a_def world0_def)
  have h4: "\<not> raises world_a (Suc (length (calls world_a)))"
    by (simp add: world_a_def world0_def)
  show ?thesis
    using h1 h2 h3 h4 post_push_existing_overwrites [OF h1 h2 h3, of sched0]
    by (simp add: fresh_task_def world_a_def world0_def task_a_def item_a_def)
qed

text \<open>Facts for two calls in a row.\<close>

lemma post_push_job_raises:
  "raises (snd (post_push_job s p_item h task_db w)) = raises w"
  by (auto simp: post_push_job_def store_defs Let_def split: option.splits)

lemma post_push_raises: "raises (snd (post_push s p_item w)) = raises w"
  by (auto simp: post_push_def Let_def get_task_by_id_def create_task_def update_task_def
        record_call_def logger_def now_def post_push_job_raises split: option.splits)

lemma rows_find:
  "filter (\<lambda>r. t_id r = tid) rows \<noteq> [] \<Longrightarrow> \<exists>t. find (\<lambda>r. t_id r = tid) rows = Some t"
  by (induction rows) (auto split: if_splits)

lemma find_Some_rows:
  "find (\<lambda>r. t_id r = tid) rows = Some t \<Longrightarrow> Suc 0 \<le> length (filter (\<lambda>r. t_id r = tid) rows)"
  by (induction rows) (auto split: if_splits)

lemma post_push_rows_exact:
  assumes "p_hash p_item = Some h"
    and "\<not> raises w (length (calls w))"
    and "\<not> raises w (Suc (length (calls w)))"
    and "\<not> declines w (Suc (length (calls w)))"
  shows "task_rows (p_id p_item) (snd (post_push s p_item w)) = max 1 (task_rows (p_id p_item) w)"
  using assms
  by (auto simp: post_push_def task_rows_def Let_def get_task_by_id_def create_task_def
        update_task_def record_call_def logger_def now_def filter_overwrite
        post_push_job_rows [unfolded task_rows_def] max_def
        split: option.splits dest: find_None_rows find_Some_rows)

lemma post_push_fault_free:
  assumes "p_hash p_item = Some h"
    and "\<forall>k. \<not> raises w k"
    and "\<not> declines w (Suc (length (calls w)))"
  shows "fst (post_push s p_item w) = Inr ()"
  using assms
  by (auto simp: post_push_def post_push_job_def Let_def store_defs split: option.splits)

lemma post_push_existing_effect:
  assumes "p_hash p_item = Some h"
    and "find (\<lambda>r. t_id r = p_id p_item) (tasks w) = Some task_db"
    and "\<not> raises w (length (calls w))"
    and "\<not> raises w (Suc (length (calls w)))"
  shows "fst (post_push s p_item w) = Inr ()"
    and "tasks (snd (post_push s p_item w)) =
           map (\<lambda>r. if t_id r = p_id p_item then fresh_task s p_item w else r) (tasks w)"
    and "jobs (snd (post_push s p_item w)) = jobs w"
    and "calls (snd (post_push s p_item w)) =
           calls w @ [GetTaskById (p_id p_item), UpdateTask (fresh_task s p_item w)]"
  unfolding post_push_existing [OF assms(1,2,3)] using assms(3,4)
  by (simp_all add: update_task_def record_call_def fresh_task_id)


text \<open>
  C3. With a hash and a Task of the item's id in the store, \<open>post_push\<close> (when the
  lookup and the update answer) returns normally after overwriting the rows of that id
  with the fresh Task: every other row, the Job table, the length of the Task table and
  the ids of its rows are as they were, so the record is updated in place and no row is
  added. Two calls of \<open>post_push\<close> for the same item id against a store that answers:
  the first leaves the rows of that id that there were, or one if there was none; the
  second is a lookup and one update that overwrites those rows with its own fresh Task
  and adds no row. Whatever the store's failures, two calls never leave more rows of
  that id than there were, or than one.
\<close>

theorem post_push_existing_in_place:
  "(p_hash p_item = Some h \<and>
    find (\<lambda>r. t_id r = p_id p_item) (tasks w) = Some task_db \<and>
    \<not> raises w (length (calls w)) \<and> \<not> raises w (Suc (length (calls w))) \<longrightarrow>
      fst (post_push s p_item w) = Inr () \<and>
      tasks (snd (post_push s p_item w)) =
        map (\<lambda>r. if t_id r = p_id p_item then fresh_task s p_item w else r) (tasks w) \<and>
      jobs (snd (post_push s p_item w)) = jobs w \<and>
      length (tasks (snd (post_push s p_item w))) = length (tasks w) \<and>
      map t_id (tasks (snd (post_push s p_item w))) = map t_id (tasks w) \<and>
      task_rows (p_id p_item) (snd (post_push s p_item w)) = task_rows (p_id p_item) w \<and>
      calls (snd (post_push s p_item w)) =
        calls w @ [GetTaskById (p_id p_item), UpdateTask (fresh_task s p_item w)]) \<and>
   (p_id p_item' = p_id p_item \<and> p_hash p_item = Some h \<and> p_hash p_item' = Some h' \<and>
    (\<forall>k. \<not> raises w k) \<and> \<not> declines w (Suc (length (calls w))) \<longrightarrow>
      fst (post_push s p_item w) = Inr () \<and>
      fst (post_push s p_item' (snd (post_push s p_item w))) = Inr () \<and>
      task_rows (p_id p_item) (snd (post_push s p_item w)) = max 1 (task_rows (p_id p_item) w) \<and>
      tasks (snd (post_push s p_item' (snd (post_push s p_item w)))) =
        map (\<lambda>r. if t_id r = p_id p_item
                 then fresh_task s p_item' (snd (post_push s p_item w)) else r)
          (tasks (snd (post_push s p_item w))) \<and>
      length (tasks (snd (post_push s p_item' (snd (post_push s p_item w))))) =
        length (tasks (snd (post_push s p_item w))) \<and>
      task_rows (p_id p_item) (snd (post_push s p_item' (snd (post_push s p_item w)))) =
        max 1 (task_rows (p_id p_item) w) \<and>
      calls (snd (post_push s p_item' (snd (post_push s p_item w)))) =
        calls (snd (post_push s p_item w)) @
          [GetTaskById (p_id p_item),
           UpdateTask (fresh_task s p_item' (snd (post_push s p_item w)))]) \<and>
   (p_id p_item' = p_id p_item \<longrightarrow>
      task_rows (p_id p_item) (snd (post_push s p_item' (snd (post_push s p_item w))))
        \<le> max 1 (task_rows (p_id p_item) w))"
proof (intro conjI impI)
  assume a: "p_hash p_item = Some h \<and>
    find (\<lambda>r. t_id r = p_id p_item) (tasks w) = Some task_db \<and>
    \<not> raises w (length (calls w)) \<and> \<not> raises w (Suc (length (calls w)))"
  then have a1: "p_hash p_item = Some h"
    and a2: "find (\<lambda>r. t_id r = p_id p_item) (tasks w) = Some task_db"
    and a3: "\<not> raises w (length (calls w))"
    and a4: "\<not> raises w (Suc (length (calls w)))"
    by simp_all
  note E = post_push_existing_effect [OF a1 a2 a3 a4, of s]
  show "fst (post_push s p_item w) = Inr ()" by (rule E(1))
  show "tasks (snd (post_push s p_item w)) =
        map (\<lambda>r. if t_id r = p_id p_item then fresh_task s p_item w else r) (tasks w)"
    by (rule E(2))
  show "jobs (snd (post_push s p_item w)) = jobs w" by (rule E(3))
  show "length (tasks (snd (post_push s p_item w))) = length (tasks w)"
    unfolding E(2) by simp
  show "map t_id (tasks (snd (post_push s p_item w))) = map t_id (tasks w)"
    unfolding E(2) by (rule ids_overwrite) (rule fresh_task_id)
  show "task_rows (p_id p_item) (snd (post_push s p_item w)) = task_rows (p_id p_item) w"
    unfolding task_rows_def E(2) by (simp add: filter_overwrite fresh_task_id)
  show "calls (snd (post_push s p_item w)) =
        calls w @ [GetTaskById (p_id p_item), UpdateTask (fresh_task s p_item w)]"
    by (rule E(4))
next
  assume b: "p_id p_item' = p_id p_item \<and> p_hash p_item = Some h \<and> p_hash p_item' = Some h' \<and>
    (\<forall>k. \<not> raises w k) \<and> \<not> declines w (Suc (length (calls w)))"
  let ?w1 = "snd (post_push s p_item w)"
  from b have i: "p_id p_item' = p_id p_item" and h1: "p_hash p_item = Some h"
    and h2: "p_hash p_item' = Some h'" and nr: "\<forall>k. \<not> raises w k"
    and nd: "\<not> declines w (Suc (length (calls w)))"
    by simp_all
  have nr1: "\<not> raises ?w1 k" for k using nr by (simp add: post_push_raises)
  have rows1: "task_rows (p_id p_item) ?w1 = max 1 (task_rows (p_id p_item) w)"
    using h1 nr nd by (intro post_push_rows_exact) simp_all
  then have "filter (\<lambda>r. t_id r = p_id p_item') (tasks ?w1) \<noteq> []"
    unfolding i by (auto simp: task_rows_def)
  then obtain t1 where f1: "find (\<lambda>r. t_id r = p_id p_item') (tasks ?w1) = Some t1"
    using rows_find by blast
  note E = post_push_existing_effect [OF h2 f1 nr1 nr1, of s]
  show "fst (post_push s p_item w) = Inr ()"
    using h1 nr nd by (rule post_push_fault_free)
  show "fst (post_push s p_item' ?w1) = Inr ()" by (rule E(1))
  show "task_rows (p_id p_item) ?w1 = max 1 (task_rows (p_id p_item) w)" by (rule rows1)
  show "tasks (snd (post_push s p_item' ?w1)) =
        map (\<lambda>r. if t_id r = p_id p_item then fresh_task s p_item' ?w1 else r) (tasks ?w1)"
    using E(2) unfolding i .
  show "length (tasks (snd (post_push s p_item' ?w1))) = length (tasks ?w1)"
    unfolding E(2) by simp
  show "task_rows (p_id p_item) (snd (post_push s p_item' ?w1)) =
          max 1 (task_rows (p_id p_item) w)"
  proof -
    have "task_rows (p_id p_item') (snd (post_push s p_item' ?w1)) =
            task_rows (p_id p_item') ?w1"
      unfolding task_rows_def E(2) by (simp add: filter_overwrite fresh_task_id)
    then show ?thesis by (simp add: i rows1)
  qed
  show "calls (snd (post_push s p_item' ?w1)) =
        calls ?w1 @ [GetTaskById (p_id p_item), UpdateTask (fresh_task s p_item' ?w1)]"
    using E(4) unfolding i .
next
  assume i: "p_id p_item' = p_id p_item"
  have "task_rows (p_id p_item') (snd (post_push s p_item' (snd (post_push s p_item w))))
          \<le> max 1 (task_rows (p_id p_item') (snd (post_push s p_item w)))"
    by (rule post_push_rows)
  also have "\<dots> \<le> max 1 (max 1 (task_rows (p_id p_item) w))"
    unfolding i using post_push_rows [of p_item s w] by simp
  finally show "task_rows (p_id p_item) (snd (post_push s p_item' (snd (post_push s p_item w))))
        \<le> max 1 (task_rows (p_id p_item) w)"
    unfolding i by simp
qed


theorem post_push_existing_in_place_witness:
  "(p_hash item_a = Some ''h'' \<and>
    find (\<lambda>r. t_id r = p_id item_a) (tasks world_a) = Some task_a \<and>
    \<not> raises world_a (length (calls world_a)) \<and>
    \<not> raises world_a (Suc (length (calls world_a)))) \<and>
   fst (post_push sched0 item_a world_a) = Inr () \<and>
   tasks (snd (post_push sched0 item_a world_a)) = [fresh_task sched0 item_a world_a] \<and>
   status task_a = RUNNING \<and> status (fresh_task sched0 item_a world_a) = QUEUED \<and>
   (p_id (item_a\<lparr>priority := 5\<rparr>) = p_id item_a \<and> p_hash item_a = Some ''h'' \<and>
    p_hash (item_a\<lparr>priority := 5\<rparr>) = Some ''h'' \<and>
    (\<forall>k. \<not> raises world0 k) \<and> \<not> declines world0 (Suc (length (calls world0)))) \<and>
   task_rows (p_id item_a) world0 = 0 \<and>
   task_rows (p_id item_a) (snd (post_push sched0 item_a world0)) = 1 \<and>
   task_rows (p_id item_a)
     (snd (post_push sched0 (item_a\<lparr>priority := 5\<rparr>) (snd (post_push sched0 item_a world0)))) = 1 \<and>
   length (tasks
     (snd (post_push sched0 (item_a\<lparr>priority := 5\<rparr>) (snd (post_push sched0 item_a world0))))) =
     length (tasks (snd (post_push sched0 item_a world0)))"
proof -
  have h: "p_hash item_a = Some ''h'' \<and>
    find (\<lambda>r. t_id r = p_id item_a) (tasks world_a) = Some task_a \<and>
    \<not> raises world_a (length (calls world_a)) \<and>
    \<not> raises world_a (Suc (length (calls world_a)))"
    by (simp add: world_a_def world0_def task_a_def item_a_def)
  have g: "p_id (item_a\<lparr>priority := 5\<rparr>) = p_id item_a \<and> p_hash item_a = Some ''h'' \<and>
    p_hash (item_a\<lparr>priority := 5\<rparr>) = Some ''h'' \<and>
    (\<forall>k. \<not> raises world0 k) \<and> \<not> declines world0 (Suc (length (calls world0)))"
    by (simp add: world0_def item_a_def)
  have z: "task_rows (p_id item_a) world0 = 0"
    by (simp add: task_rows_def world0_def)
  have s: "status task_a = RUNNING \<and> status (fresh_task sched0 item_a world_a) = QUEUED"
    by (simp add: task_a_def fresh_task_def)
  have rows: "tasks world_a = [task_a]" "t_id task_a = p_id item_a"
    by (simp_all add: world_a_def world0_def task_a_def item_a_def)
  from h post_push_existing_in_place
    [of item_a "''h''" world_a task_a sched0 "item_a\<lparr>priority := 5\<rparr>" "''h''"]
  have t: "fst (post_push sched0 item_a world_a) = Inr () \<and>
      tasks (snd (post_push sched0 item_a world_a)) =
        map (\<lambda>r. if t_id r = p_id item_a then fresh_task sched0 item_a world_a else r)
          (tasks world_a)"
    by blast
  from g post_push_existing_in_place
    [of item_a "''h''" world0 task_a sched0 "item_a\<lparr>priority := 5\<rparr>" "''h''"]
  have u: "task_rows (p_id item_a) (snd (post_push sched0 item_a world0)) =
             max 1 (task_rows (p_id item_a) world0) \<and>
           task_rows (p_id item_a)
             (snd (post_push sched0 (item_a\<lparr>priority := 5\<rparr>)
                (snd (post_push sched0 item_a world0)))) =
             max 1 (task_rows (p_id item_a) world0) \<and>
           length (tasks (snd (post_push sched0 (item_a\<lparr>priority := 5\<rparr>)
                (snd (post_push sched0 item_a world0))))) =
             length (tasks (snd (post_push sched0 item_a world0)))"
    by blast
  show ?thesis
  proof (intro conjI)
    show "tasks (snd (post_push sched0 item_a world_a)) = [fresh_task sched0 item_a world_a]"
      using t by (simp add: rows)
    show "task_rows (p_id item_a) (snd (post_push sched0 item_a world0)) = 1"
      using u by (simp add: z)
    show "task_rows (p_id item_a)
            (snd (post_push sched0 (item_a\<lparr>priority := 5\<rparr>)
               (snd (post_push sched0 item_a world0)))) = 1"
      using u by (simp add: z)
  qed (use h g z s t u in simp_all)
qed

text \<open>
  Once its lookup has answered, the Job part of \<open>post_push\<close> returns normally whatever
  the later store calls do, and a later call that raises leaves a warning in the log.
\<close>

lemma post_push_job_non_fatal:
  assumes "\<not> raises w (length (calls w))"
  shows "fst (post_push_job s p_item h task_db w) = Inr () \<and>
         ((\<exists>k. length (calls w) \<le> k \<and> k < length (calls (snd (post_push_job s p_item h task_db w))) \<and>
               raises w k) \<longrightarrow>
          (\<exists>msg. logs (snd (post_push_job s p_item h task_db w)) = logs w @ [(WARNING, msg)]))"
  using assms
  by (auto simp: post_push_job_def store_defs Let_def less_Suc_eq split: option.splits)

text \<open>
  C4, amended. In \<open>post_push\<close> for an item with a hash and no Task of its id in the
  store, when the three calls \<open>get_task_by_id\<close>, \<open>create_task\<close> and \<open>get_job_by_hash\<close>
  do not raise: \<open>post_push\<close> returns normally, and if \<open>create_task\<close> returned \<open>None\<close>
  or one of the calls after them (\<open>create_job\<close>, \<open>update_job\<close>, the \<open>update_task\<close>
  that links the Task to its Job) raised, a warning is the last entry of the log.
\<close>

theorem post_push_job_steps_non_fatal:
  assumes "p_hash p_item = Some h"
    and "find (\<lambda>r. t_id r = p_id p_item) (tasks w) = None"
    and "\<not> raises w (length (calls w))"
    and "\<not> raises w (Suc (length (calls w)))"
    and "\<not> raises w (Suc (Suc (length (calls w))))"
  shows "fst (post_push s p_item w) = Inr () \<and>
         ((\<exists>k. length (calls w) \<le> k \<and> k < length (calls (snd (post_push s p_item w))) \<and>
               (raises w k \<or> k = Suc (length (calls w)) \<and> declines w k)) \<longrightarrow>
          (\<exists>msg. logs (snd (post_push s p_item w)) = logs w @ [(WARNING, msg)]))"
proof (cases "declines w (Suc (length (calls w)))")
  case True
  then show ?thesis
    using assms
    by (simp add: post_push_def Let_def get_task_by_id_def create_task_def record_call_def
          logger_def now_def)
next
  case False
  let ?w4 = "record_call (CreateTask (fresh_task s p_item w))
               ((record_call (GetTaskById (p_id p_item)) (w\<lparr>ticks := Suc (Suc (ticks w))\<rparr>))
                  \<lparr>tasks := tasks w @ [fresh_task s p_item w]\<rparr>)"
  have e: "post_push s p_item w = post_push_job s p_item h (fresh_task s p_item w) ?w4"
    using assms False
    by (simp add: post_push_def fresh_task_def Let_def get_task_by_id_def create_task_def
          record_call_def now_def)
  have r: "raises ?w4 = raises w" "logs ?w4 = logs w"
          "length (calls ?w4) = Suc (Suc (length (calls w)))"
    by (simp_all add: record_call_def)
  have ok: "\<not> raises ?w4 (length (calls ?w4))" using assms(5) r by simp
  have k: "k < Suc (Suc (length (calls w))) \<Longrightarrow> length (calls w) \<le> k \<Longrightarrow>
           \<not> (raises w k \<or> k = Suc (length (calls w)) \<and> declines w k)" for k
    using assms(3,4) False by (auto simp: less_Suc_eq)
  note J = post_push_job_non_fatal [OF ok, of s p_item h "fresh_task s p_item w", unfolded r]
  show ?thesis
    unfolding e
  proof (intro conjI impI)
    show "fst (post_push_job s p_item h (fresh_task s p_item w) ?w4) = Inr ()"
      using J by simp
    assume "\<exists>k\<ge>length (calls w).
              k < length (calls (snd (post_push_job s p_item h (fresh_task s p_item w) ?w4))) \<and>
              (raises w k \<or> k = Suc (length (calls w)) \<and> declines w k)"
    then obtain k where k1: "length (calls w) \<le> k"
      and k2: "k < length (calls (snd (post_push_job s p_item h (fresh_task s p_item w) ?w4)))"
      and k3: "raises w k \<or> k = Suc (length (calls w)) \<and> declines w k"
      by blast
    have k4: "Suc (Suc (length (calls w))) \<le> k"
    proof (rule ccontr)
      assume "\<not> Suc (Suc (length (calls w))) \<le> k"
      then have "k < Suc (Suc (length (calls w)))" by simp
      from k [OF this k1] k3 show False by blast
    qed
    then have "raises w k" using k3 by auto
    with k2 k4 show "\<exists>msg. logs (snd (post_push_job s p_item h (fresh_task s p_item w) ?w4)) =
                       logs w @ [(WARNING, msg)]"
      using J by blast
  qed
qed

theorem post_push_job_steps_non_fatal_witness:
  "p_hash item_a = Some ''h'' \<and>
   find (\<lambda>r. t_id r = p_id item_a) (tasks world_jobs_down) = None \<and>
   \<not> raises world_jobs_down (length (calls world_jobs_down)) \<and>
   \<not> raises world_jobs_down (Suc (length (calls world_jobs_down))) \<and>
   \<not> raises world_jobs_down (Suc (Suc (length (calls world_jobs_down)))) \<and>
   raises world_jobs_down 3 \<and>
   length (calls (snd (post_push sched0 item_a world_jobs_down))) = 4 \<and>
   fst (post_push sched0 item_a world_jobs_down) = Inr () \<and>
   (\<exists>msg. logs (snd (post_push sched0 item_a world_jobs_down)) =
            logs world_jobs_down @ [(WARNING, msg)])"
proof -
  have h1: "p_hash item_a = Some ''h''" by (simp add: item_a_def)
  have h2: "find (\<lambda>r. t_id r = p_id item_a) (tasks world_jobs_down) = None"
    by (simp add: world_jobs_down_def world0_def)
  have h3: "\<not> raises world_jobs_down (length (calls world_jobs_down))"
    by (simp add: world_jobs_down_def world0_def)
  have h4: "\<not> raises world_jobs_down (Suc (length (calls world_jobs_down)))"
    by (simp add: world_jobs_down_def world0_def)
  have h5: "\<not> raises world_jobs_down (Suc (Suc (length (calls world_jobs_down))))"
    by (simp add: world_jobs_down_def world0_def)
  have r3: "raises world_jobs_down 3" by (simp add: world_jobs_down_def)
  have c0: "length (calls world_jobs_down) = 0" by (simp add: world_jobs_down_def world0_def)
  have len: "length (calls (snd (post_push sched0 item_a world_jobs_down))) = 4"
    by (simp add: post_push_def post_push_job_def Let_def store_defs world_jobs_down_def
          world0_def sched0_def item_a_def)
  have ex: "\<exists>k\<ge>length (calls world_jobs_down).
              k < length (calls (snd (post_push sched0 item_a world_jobs_down))) \<and>
              (raises world_jobs_down k \<or>
               k = Suc (length (calls world_jobs_down)) \<and> declines world_jobs_down k)"
    unfolding len c0 using r3 by (intro exI [of _ 3]) simp
  show ?thesis
    using h1 h2 h3 h4 h5 r3 len ex post_push_job_steps_non_fatal [OF h1 h2 h3 h4 h5, of sched0]
    by blast
qed

text \<open>
  C4 as stated fails: a failure raised by a store call should be logged and leave
  \<open>post_push\<close> and \<open>post_pop\<close> returning normally, but only \<open>create_job\<close>,
  \<open>update_job\<close> and the last \<open>update_task\<close> of \<open>post_push\<close> are inside a \<open>try\<close>.
  With a store that raises, the lookup at the head of \<open>post_pop\<close> and of \<open>post_push\<close>
  raises out of them, nothing is logged, and \<open>push_item_to_queue\<close> raises after the
  queue has taken the item.
\<close>

theorem store_failure_propagates:
  "fst (post_pop sched0 item_a world_down) = Inl StoreError \<and>
   logs (snd (post_pop sched0 item_a world_down)) = [] \<and>
   fst (post_push sched0 item_a world_down) = Inl StoreError \<and>
   logs (snd (post_push sched0 item_a world_down)) = [] \<and>
   fst (push_item_to_queue sched0 item_a world_down) = Inl StoreError \<and>
   queue (snd (push_item_to_queue sched0 item_a world_down)) = [item_a]"
  by (simp add: post_pop_def post_push_def push_item_to_queue_def Let_def store_defs
        world_down_def world_a_def world0_def sched0_def item_a_def)

section \<open>Scheduler.push_item_to_queue_with_timeout\<close>

lemma world_full_no_space: "\<not> is_space_on_queue world_full"
  by (simp add: is_space_on_queue_def qsize_def world_full_def world0_def)

lemma wait_one_try:
  "wait_for_space consumer 1 1 0 world_full =
     Some (1, consumer 1 (logger DEBUG ''Queue %s is full, waiting for space'' world_full))"
  apply (subst wait_for_space.simps)
  apply (simp add: world_full_no_space)
  apply (subst wait_for_space.simps)
  apply simp
  done

lemma wait_no_try: "wait_for_space consumer 1 0 0 world0 = Some (0, world0)"
  by (subst wait_for_space.simps) simp

text \<open>
  C6. The call should raise \<open>QueueFullError\<close> only when the retries ran out without
  space having appeared, and push the item otherwise. With \<open>max_tries = 1\<close>, a queue
  that is full at the first check and a consumer that pops during the one sleep, the
  second check finds space and the loop ends; the test after the loop looks at
  \<open>tries \<ge> max_tries\<close> alone, so the call raises \<open>QueueFullError\<close> while the queue is
  empty. With \<open>max_tries = 0\<close> it raises on an empty unbounded queue without any wait.
\<close>

theorem timeout_raises_with_space_on_queue:
  "push_item_to_queue_with_timeout sched0 consumer item_a 1 1 world_full =
     Some (Inl QueueFullError,
           consumer 1 (logger DEBUG ''Queue %s is full, waiting for space'' world_full)) \<and>
   is_space_on_queue
     (consumer 1 (logger DEBUG ''Queue %s is full, waiting for space'' world_full)) \<and>
   queue (consumer 1 (logger DEBUG ''Queue %s is full, waiting for space'' world_full)) = [] \<and>
   push_item_to_queue_with_timeout sched0 consumer item_a 0 1 world0 =
     Some (Inl QueueFullError, world0) \<and>
   is_space_on_queue world0"
  by (simp add: push_item_to_queue_with_timeout_def wait_one_try wait_no_try)
    (simp add: is_space_on_queue_def qsize_def consumer_def logger_def world_full_def world0_def)

section \<open>Octopoes.get_objects_by_object_types\<close>

text \<open>The loop over the pages \<open>i, \<dots>, m - 1\<close> against a service that holds \<open>xs\<close>.\<close>

lemma fetch_pages_serving:
  "limit params = 1000 \<Longrightarrow> m - i = n \<Longrightarrow>
   fetch_pages (serving xs) params (map (\<lambda>k. int k * 1000) [i..<m]) acc sent =
     (Inr (acc @ take (n * 1000) (drop (i * 1000) xs)),
      sent @ map (\<lambda>k. params\<lparr>offset := int k * 1000\<rparr>) [i..<m])"
proof (induction n arbitrary: i acc sent params)
  case 0
  then show ?case by simp
next
  case (Suc n)
  then have lt: "i < m" and n: "m - Suc i = n" by simp_all
  have page: "take 1000 (drop (i * 1000) xs) @ take (n * 1000) (drop (Suc i * 1000) xs) =
              take (Suc n * 1000) (drop (i * 1000) xs)"
    by (simp add: take_add add.commute)
  have lim: "limit (params\<lparr>offset := int i * 1000\<rparr>) = 1000" using Suc.prems(1) by simp
  show ?case
    using Suc.IH [OF lim n, of "acc @ take 1000 (drop (i * 1000) xs)"
        "sent @ [params\<lparr>offset := int i * 1000\<rparr>]"] lt Suc.prems(1) page
    by (simp add: upt_conv_Cons http_get_def serving_def nat_mult_distrib)
qed

lemma pages_cover: "(n::nat) \<le> ((n + 999) div 1000) * 1000"
proof -
  have "n + 999 = ((n + 999) div 1000) * 1000 + (n + 999) mod 1000" by simp
  moreover have "(n + 999) mod 1000 \<le> 999" by simp
  ultimately show ?thesis by linarith
qed

text \<open>
  C9. Against a service that holds the objects \<open>xs\<close>, \<open>get_objects_by_object_types\<close>
  sends one request with \<open>limit = 1\<close> and \<open>offset = 0\<close>, then one request with
  \<open>limit = 1000\<close> for each offset of \<open>range(0, count, 1000)\<close>, that is
  \<open>0, 1000, 2000, \<dots>\<close> below \<open>count = length xs\<close>, and returns \<open>xs\<close>: all the objects.
\<close>

theorem get_objects_by_object_types_pages:
  "get_objects_by_object_types (serving xs) host organisation_id object_types scan_levels sent =
     (Inr xs,
      sent @
      \<lparr>url = host @ ''/'' @ organisation_id @ ''/objects'', types = object_types,
        scan_level = set (case scan_levels of None \<Rightarrow> [] | Some l \<Rightarrow> l),
        offset = 0, limit = 1\<rparr> #
      map (\<lambda>off. \<lparr>url = host @ ''/'' @ organisation_id @ ''/objects'', types = object_types,
                   scan_level = set (case scan_levels of None \<Rightarrow> [] | Some l \<Rightarrow> l),
                   offset = off, limit = 1000\<rparr>)
        (py_range (int (length xs)) 1000)) \<and>
   py_range (int (length xs)) 1000 =
     map (\<lambda>k. 1000 * int k) [0..<(length xs + 999) div 1000]"
proof -
  define probe where
    "probe = \<lparr>url = host @ ''/'' @ organisation_id @ ''/objects'', types = object_types,
               scan_level = set (case scan_levels of None \<Rightarrow> [] | Some l \<Rightarrow> l),
               offset = 0, limit = 1\<rparr>"
  let ?m = "nat ((int (length xs) + 1000 - 1) div 1000)"
  have m: "?m = (length xs + 999) div 1000"
    by (simp add: nat_div_distrib nat_add_distrib)
  have cover: "length xs \<le> ?m * 1000" unfolding m by (rule pages_cover)
  have r: "py_range (int (length xs)) 1000 = map (\<lambda>k. int k * 1000) [0..<?m]"
    by (simp add: py_range_def)
  have lim: "limit (probe\<lparr>limit := 1000\<rparr>) = 1000" by simp
  have pages: "fetch_pages (serving xs) (probe\<lparr>limit := 1000\<rparr>)
                 (py_range (int (length xs)) 1000) [] (sent @ [probe]) =
               (Inr xs, (sent @ [probe]) @
                  map (\<lambda>k. probe\<lparr>limit := 1000, offset := int k * 1000\<rparr>) [0..<?m])"
    unfolding r
    using fetch_pages_serving [OF lim, of ?m 0 ?m xs "[]" "sent @ [probe]"] cover
    by simp
  have body: "get_objects_by_object_types (serving xs) host organisation_id object_types
                scan_levels sent =
              exception_handler (fetch_pages (serving xs) (probe\<lparr>limit := 1000\<rparr>)
                 (py_range (int (length xs)) 1000) [] (sent @ [probe]))"
    by (simp add: get_objects_by_object_types_def Let_def http_get_def serving_def probe_def)
  have first: "get_objects_by_object_types (serving xs) host organisation_id object_types
                scan_levels sent =
     (Inr xs, sent @ probe #
        map (\<lambda>off. probe\<lparr>limit := 1000, offset := off\<rparr>) (py_range (int (length xs)) 1000))"
    unfolding body pages by (simp add: exception_handler_def r comp_def)
  have second: "py_range (int (length xs)) 1000 =
     map (\<lambda>k. 1000 * int k) [0..<(length xs + 999) div 1000]"
    unfolding r m by (simp add: mult.commute)
  show ?thesis
    using first second by (simp add: probe_def)
qed

section \<open>Scheduler.push_items_to_queue\<close>

lemma push_items_absorbs:
  "fst (push_items_to_queue s p_items w) \<noteq> Inl NotAllowedError \<and>
   fst (push_items_to_queue s p_items w) \<noteq> Inl QueueFullError \<and>
   fst (push_items_to_queue s p_items w) \<noteq> Inl InvalidPrioritizedItemError"
  by (induction p_items arbitrary: w) (auto split: prod.splits sum.splits)

lemmas sample_defs = sched_dedup_def sched0_def item_a_def item_b_def item_nohash_def
  world_queued_down_def world_queued_def world_a_def world0_def task_a_def

text \<open>
  C5. When the push of an item raises \<open>NotAllowedError\<close>, \<open>QueueFullError\<close> or
  \<open>InvalidPrioritizedItemError\<close>, \<open>push_items_to_queue\<close> logs it and goes on with the
  items that follow; when it raises anything else, the batch stops there and raises
  that error; when it succeeds, the batch goes on. So a batch never raises one of the
  three errors.
\<close>

theorem push_items_to_queue_skips_or_aborts:
  "(push_item_to_queue s p_item w = (Inl e, w1) \<and>
    (e = NotAllowedError \<or> e = QueueFullError \<or> e = InvalidPrioritizedItemError) \<longrightarrow>
      push_items_to_queue s (p_item # p_items) w =
        push_items_to_queue s p_items (logger DEBUG ''Unable to push item to queue %s'' w1)) \<and>
   (push_item_to_queue s p_item w = (Inl e, w1) \<and>
    e \<noteq> NotAllowedError \<and> e \<noteq> QueueFullError \<and> e \<noteq> InvalidPrioritizedItemError \<longrightarrow>
      push_items_to_queue s (p_item # p_items) w =
        (Inl e, logger ERROR ''Unable to push item to queue %s'' w1)) \<and>
   (push_item_to_queue s p_item w = (Inr (), w1) \<longrightarrow>
      push_items_to_queue s (p_item # p_items) w = push_items_to_queue s p_items w1) \<and>
   fst (push_items_to_queue s p_items w) \<noteq> Inl NotAllowedError \<and>
   fst (push_items_to_queue s p_items w) \<noteq> Inl QueueFullError \<and>
   fst (push_items_to_queue s p_items w) \<noteq> Inl InvalidPrioritizedItemError"
  using push_items_absorbs [of s p_items w] by auto

text \<open>
  An instance: \<open>item_a\<close> is refused (its hash is queued) and \<open>item_b\<close> behind it is
  pushed; with the store out of order the push of \<open>item_b\<close> raises \<open>StoreError\<close> and
  \<open>item_nohash\<close> behind it is never pushed; with the store in order \<open>item_b\<close> is pushed
  and \<open>item_nohash\<close> after it.
\<close>

theorem push_items_to_queue_skips_or_aborts_witness:
  "push_item_to_queue sched_dedup item_a world_queued =
     (Inl NotAllowedError, logger WARNING ''Not allowed to push to queue %s'' world_queued) \<and>
   fst (push_items_to_queue sched_dedup [item_a, item_b] world_queued) = Inr () \<and>
   queue (snd (push_items_to_queue sched_dedup [item_a, item_b] world_queued)) =
     [item_a, item_b] \<and>
   fst (push_item_to_queue sched_dedup item_b world_queued_down) = Inl StoreError \<and>
   fst (push_items_to_queue sched_dedup [item_b, item_nohash] world_queued_down) =
     Inl StoreError \<and>
   queue (snd (push_items_to_queue sched_dedup [item_b, item_nohash] world_queued_down)) =
     [item_a, item_b] \<and>
   fst (push_item_to_queue sched_dedup item_b world_queued) = Inr () \<and>
   queue (snd (push_items_to_queue sched_dedup [item_b, item_nohash] world_queued)) =
     [item_a, item_b, item_nohash]"
proof -
  let ?skip = "logger WARNING ''Not allowed to push to queue %s'' world_queued"
  let ?down = "snd (push_item_to_queue sched_dedup item_b world_queued_down)"
  let ?ok = "snd (push_item_to_queue sched_dedup item_b world_queued)"
  have a: "push_item_to_queue sched_dedup item_a world_queued = (Inl NotAllowedError, ?skip)"
    by (simp add: push_item_to_queue_def sample_defs)
  have fb: "fst (push_item_to_queue sched_dedup item_b world_queued_down) = Inl StoreError"
    by (simp add: push_item_to_queue_def post_push_def Let_def store_defs sample_defs)
  then have b: "push_item_to_queue sched_dedup item_b world_queued_down =
                  (Inl StoreError, ?down)"
    by (simp add: prod_eq_iff)
  have fc: "fst (push_item_to_queue sched_dedup item_b world_queued) = Inr ()"
    by (simp add: push_item_to_queue_def post_push_def post_push_job_def Let_def store_defs
          sample_defs)
  then have c: "push_item_to_queue sched_dedup item_b world_queued = (Inr (), ?ok)"
    by (simp add: prod_eq_iff)
  have skipped: "push_items_to_queue sched_dedup [item_a, item_b] world_queued =
      push_items_to_queue sched_dedup [item_b]
        (logger DEBUG ''Unable to push item to queue %s'' ?skip)"
    using a push_items_to_queue_skips_or_aborts
        [of sched_dedup item_a world_queued NotAllowedError ?skip "[item_b]"]
    by blast
  have aborted: "push_items_to_queue sched_dedup [item_b, item_nohash] world_queued_down =
      (Inl StoreError, logger ERROR ''Unable to push item to queue %s'' ?down)"
    using b push_items_to_queue_skips_or_aborts
        [of sched_dedup item_b world_queued_down StoreError ?down "[item_nohash]"]
    by blast
  have pushed: "push_items_to_queue sched_dedup [item_b, item_nohash] world_queued =
      push_items_to_queue sched_dedup [item_nohash] ?ok"
    using c push_items_to_queue_skips_or_aborts
        [of sched_dedup item_b world_queued StoreError ?ok "[item_nohash]"]
    by blast
  have ra: "fst (push_items_to_queue sched_dedup [item_b]
              (logger DEBUG ''Unable to push item to queue %s'' ?skip)) = Inr ()"
    by (simp add: push_item_to_queue_def post_push_def post_push_job_def Let_def store_defs
          sample_defs)
  have qa: "queue (snd (push_items_to_queue sched_dedup [item_b]
              (logger DEBUG ''Unable to push item to queue %s'' ?skip))) = [item_a, item_b]"
    by (simp add: push_item_to_queue_def post_push_def post_push_job_def Let_def store_defs
          sample_defs)
  have qb: "queue (logger ERROR ''Unable to push item to queue %s'' ?down) = [item_a, item_b]"
    by (simp add: push_item_to_queue_def post_push_def Let_def store_defs sample_defs)
  have qc: "queue (snd (push_items_to_queue sched_dedup [item_nohash] ?ok)) =
              [item_a, item_b, item_nohash]"
    by (simp add: push_item_to_queue_def post_push_def post_push_job_def Let_def store_defs
          sample_defs)
  show ?thesis
  proof (intro conjI)
    show "push_item_to_queue sched_dedup item_a world_queued = (Inl NotAllowedError, ?skip)"
      by (rule a)
    show "fst (push_items_to_queue sched_dedup [item_a, item_b] world_queued) = Inr ()"
      unfolding skipped by (rule ra)
    show "queue (snd (push_items_to_queue sched_dedup [item_a, item_b] world_queued)) =
            [item_a, item_b]"
      unfolding skipped by (rule qa)
    show "fst (push_item_to_queue sched_dedup item_b world_queued_down) = Inl StoreError"
      by (rule fb)
    show "fst (push_items_to_queue sched_dedup [item_b, item_nohash] world_queued_down) =
            Inl StoreError"
      unfolding aborted by simp
    show "queue (snd (push_items_to_queue sched_dedup [item_b, item_nohash] world_queued_down)) =
            [item_a, item_b]"
      unfolding aborted using qb by simp
    show "fst (push_item_to_queue sched_dedup item_b world_queued) = Inr ()"
      by (rule fc)
    show "queue (snd (push_items_to_queue sched_dedup [item_b, item_nohash] world_queued)) =
            [item_a, item_b, item_nohash]"
      unfolding pushed by (rule qc)
  qed
qed

end
